theory Spec2Isabelle
  imports Main
begin

section \<open>Exceptions\<close>

text \<open>
  The exceptions the script can raise, as values. \<open>ValueError\<close> carries its message as in
  the source; \<open>DownloadError\<close> is what \<open>ydl.download\<close> raises, \<open>JSONDecodeError\<close> what
  \<open>json.loads\<close> raises, \<open>IsADirectoryError\<close> what \<open>open(path, "wb")\<close> raises on a
  directory. Failures of the transport below the provider client are not modelled.
\<close>

datatype exn = ValueError string | DownloadError | JSONDecodeError | IsADirectoryError

text \<open>The spec's names for the two \<open>ValueError\<close>s and the library errors.\<close>

definition InvalidSourceError :: exn where
  "InvalidSourceError = ValueError ''Could not extract video ID from URL''"

definition IngestionError :: exn where
  "IngestionError = ValueError ''Video processing failed at Google's end.''"

definition AcquisitionError :: exn where
  "AcquisitionError = DownloadError"

definition ClassificationError :: exn where
  "ClassificationError = JSONDecodeError"

section \<open>The identifier pattern\<close>

text \<open>
  \<^verbatim>\<open>re.search(r"(?:v=|\/)([\w-]{11})(?:\?|&|\/|$)", url)\<close>

  A URL is a \<open>string\<close>, so its characters are the code points below 256. On a \<open>str\<close>
  pattern \<open>\w\<close> is the Unicode class: alphanumeric or underscore. Below 256 these are the
  ASCII letters and digits, the underscore, and the Latin-1 letters and numerics listed.
\<close>

definition is_word :: "char \<Rightarrow> bool" where
  "is_word c = (let n = (of_char c :: nat) in
     (48 \<le> n \<and> n \<le> 57) \<or> (65 \<le> n \<and> n \<le> 90) \<or> n = 95 \<or> (97 \<le> n \<and> n \<le> 122)
     \<or> n = 170 \<or> n = 178 \<or> n = 179 \<or> n = 181 \<or> n = 185 \<or> n = 186
     \<or> (188 \<le> n \<and> n \<le> 190) \<or> (192 \<le> n \<and> n \<le> 214)
     \<or> (216 \<le> n \<and> n \<le> 246) \<or> (248 \<le> n \<and> n \<le> 255))"

text \<open>The class \<open>[\w-]\<close>.\<close>

definition id_char :: "char \<Rightarrow> bool" where
  "id_char c = (is_word c \<or> c = CHR ''-'')"

text \<open>
  The group \<open>(?:v=|\/)\<close>: the remainders of the subject after each alternative that
  matches, in the order the alternatives are tried.
\<close>

definition after_sep :: "string \<Rightarrow> string list" where
  "after_sep s = (if take 2 s = ''v='' then [drop 2 s] else [])
               @ (if take 1 s = ''/'' then [drop 1 s] else [])"

text \<open>
  The group \<open>(?:\?|&|\/|$)\<close>. Without the MULTILINE flag \<open>$\<close> matches at the end of the
  subject and just before a newline that ends the subject.
\<close>

definition terminator :: "string \<Rightarrow> bool" where
  "terminator t = (take 1 t = ''?'' \<or> take 1 t = ''&'' \<or> take 1 t = ''/''
                   \<or> t = [] \<or> t = [CHR 0x0A])"

text \<open>The capture \<open>([\w-]{11})\<close> and what follows it.\<close>

definition capture :: "string \<Rightarrow> string option" where
  "capture r = (if 11 \<le> length r \<and> list_all id_char (take 11 r) \<and> terminator (drop 11 r)
                then Some (take 11 r) else None)"

fun first_some :: "('a \<Rightarrow> 'b option) \<Rightarrow> 'a list \<Rightarrow> 'b option" where
  "first_some f [] = None"
| "first_some f (x # xs) = (case f x of Some y \<Rightarrow> Some y | None \<Rightarrow> first_some f xs)"

text \<open>The whole pattern, anchored at the start of \<open>s\<close>; the result is group 1.\<close>

definition match_here :: "string \<Rightarrow> string option" where
  "match_here s = first_some capture (after_sep s)"

text \<open>\<open>re.search\<close>: the match at the leftmost position that has one.\<close>

fun re_search :: "string \<Rightarrow> string option" where
  "re_search [] = match_here []"
| "re_search (c # cs) =
     (case match_here (c # cs) of Some g \<Rightarrow> Some g | None \<Rightarrow> re_search cs)"

section \<open>The disk and the trace of effects\<close>

text \<open>
  The disk is the set of directories and the contents of the regular files, by path as
  the script writes it (relative to the working directory). \<open>os.path.exists\<close> is true
  of both kinds.
\<close>

record filesystem =
  dirs :: "string set"
  files :: "string \<rightharpoonup> string"

definition path_exists :: "filesystem \<Rightarrow> string \<Rightarrow> bool" where
  "path_exists fs p = (p \<in> dirs fs \<or> files fs p \<noteq> None)"

text \<open>
  Every call that leaves the process is recorded: directory creation, the notice of a
  cache hit, the downloader (URL and output template), the write of an upload, the
  provider's upload and status calls with the state they answered, the sleep between
  polls, and the generation requests (by model id).
\<close>

datatype event =
    Makedirs string
  | Toast string
  | YdlDownload string string
  | WriteFile string
  | FilesUpload string string
  | Sleep nat
  | FilesGet string string
  | GenerateContent string

record world =
  disk :: filesystem
  trace :: "event list"

section \<open>Acquisition\<close>

text \<open>
  The downloader is an external collaborator: given the URL and the output template it
  changes the disk as it sees fit and either returns or raises (\<open>False\<close>).
\<close>

type_synonym downloader = "string \<Rightarrow> string \<Rightarrow> filesystem \<Rightarrow> bool \<times> filesystem"

definition cache_path :: "string \<Rightarrow> string" where
  "cache_path video_id = ''downloads/'' @ video_id @ ''.mp4''"

definition outtmpl :: "string \<Rightarrow> string" where
  "outtmpl video_id = ''downloads/'' @ video_id @ ''.%(ext)s''"

definition ensure_downloads :: "world \<Rightarrow> world" where
  "ensure_downloads w =
     (if \<not> path_exists (disk w) ''downloads''
      then w\<lparr>disk := (disk w)\<lparr>dirs := insert ''downloads'' (dirs (disk w))\<rparr>,
             trace := trace w @ [Makedirs ''downloads'']\<rparr>
      else w)"

definition download_youtube_video :: "downloader \<Rightarrow> string \<Rightarrow> world \<Rightarrow> (exn + string) \<times> world" where
  "download_youtube_video ydl url w =
     (case re_search url of
        None \<Rightarrow> (Inl (ValueError ''Could not extract video ID from URL''), w)
      | Some video_id \<Rightarrow>
          (let output_filename = cache_path video_id;
               w1 = ensure_downloads w
           in if path_exists (disk w1) output_filename
              then (Inr output_filename, w1\<lparr>trace := trace w1 @ [Toast video_id]\<rparr>)
              else (case ydl url (outtmpl video_id) (disk w1) of
                      (ok, fs') \<Rightarrow>
                        (let w2 = w1\<lparr>disk := fs',
                                     trace := trace w1 @ [YdlDownload url (outtmpl video_id)]\<rparr>
                         in if ok then (Inr output_filename, w2) else (Inl DownloadError, w2)))))"

text \<open>
  The File Upload branch of the page: the uploaded bytes go to \<open>temp_upload.mp4\<close> in the
  working directory, opened with mode \<open>"wb"\<close>, which truncates a file that is there.
\<close>

definition save_upload :: "string \<Rightarrow> world \<Rightarrow> (exn + string) \<times> world" where
  "save_upload bytes w =
     (let target_file_path = ''temp_upload.mp4'' in
      if target_file_path \<in> dirs (disk w) then (Inl IsADirectoryError, w)
      else (Inr target_file_path,
            w\<lparr>disk := (disk w)\<lparr>files := (files (disk w))(target_file_path \<mapsto> bytes)\<rparr>,
              trace := trace w @ [WriteFile target_file_path]\<rparr>))"

text \<open>
  The spec's \<open>acquire\<close>: \<open>download_youtube_video\<close> for a URL, the File Upload branch
  for uploaded bytes. A run of user actions threads the disk through; an exception ends
  one action (the page shows it) and the next action starts from the disk as it was left.
\<close>

datatype media_source = YouTubeURL string | FileUpload string

fun acquire :: "downloader \<Rightarrow> media_source \<Rightarrow> world \<Rightarrow> (exn + string) \<times> world" where
  "acquire ydl (YouTubeURL url) w = download_youtube_video ydl url w"
| "acquire ydl (FileUpload bytes) w = save_upload bytes w"


section \<open>Remote asset ingestion\<close>

text \<open>
  The provider's file record, with the state as the string the script compares it to.
\<close>

record remote_file =
  name :: string
  uri :: string
  mime_type :: string
  state :: string

text \<open>
  JSON values as \<open>json.loads\<close> delivers them (numbers that are not integers are left
  out). A dict is an association list whose keys are distinct: \<open>json.loads\<close> keeps one
  entry for each key.
\<close>

datatype json =
    JNull
  | JBool bool
  | JInt int
  | JStr string
  | JList "json list"
  | JDict "(string \<times> json) list"

text \<open>
  The provider is an external collaborator. \<open>files_upload\<close> answers an upload,
  \<open>files_get k n\<close> is its answer to the \<open>k\<close>-th status request (counted from 0), made for
  the name \<open>n\<close>, and \<open>generate_content\<close> answers a generation request (model, file URI,
  MIME type, prompt, response schema) with the response text.
\<close>

record provider =
  files_upload :: "string \<Rightarrow> remote_file"
  files_get :: "nat \<Rightarrow> string \<Rightarrow> remote_file"
  generate_content :: "string \<Rightarrow> string \<Rightarrow> string \<Rightarrow> string \<Rightarrow> json \<Rightarrow> string"

text \<open>
  \<^verbatim>\<open>
  while video_file.state == "PROCESSING":
      time.sleep(1)
      video_file = client.files.get(name=video_file.name)
  \<close>
  The loop has no bound, so it is a partial function: \<open>None\<close> is a loop that never ends.
  \<open>k\<close> counts the status requests made so far.
\<close>

partial_function (option) poll_loop ::
  "provider \<Rightarrow> nat \<Rightarrow> remote_file \<Rightarrow> event list \<Rightarrow> (remote_file \<times> event list) option" where
  "poll_loop P k video_file tr =
     (if state video_file = ''PROCESSING''
      then poll_loop P (Suc k) (files_get P k (name video_file))
             (tr @ [Sleep 1,
                    FilesGet (name video_file) (state (files_get P k (name video_file)))])
      else Some (video_file, tr))"

text \<open>The parameter \<open>mime_type\<close> of the source function is not used by its body.\<close>

definition upload_to_gemini ::
  "provider \<Rightarrow> string \<Rightarrow> event list \<Rightarrow> ((exn + remote_file) \<times> event list) option" where
  "upload_to_gemini P file_path tr =
     (let video_file = files_upload P file_path in
      case poll_loop P 0 video_file (tr @ [FilesUpload file_path (state video_file)]) of
        None \<Rightarrow> None
      | Some (video_file', tr') \<Rightarrow>
          if state video_file' = ''FAILED''
          then Some (Inl (ValueError ''Video processing failed at Google's end.''), tr')
          else Some (Inr video_file', tr'))"

section \<open>The two classifiers\<close>

definition VIDEO_MODEL_ID :: string where
  "VIDEO_MODEL_ID = ''gemini-2.5-pro''"

definition AUDIO_MODEL_ID :: string where
  "AUDIO_MODEL_ID = ''gemini-2.0-flash''"

definition visual_schema :: json where
  "visual_schema = JDict
     [(''type'', JStr ''OBJECT''),
      (''properties'', JDict
         [(''visual_score'', JDict [(''type'', JStr ''INTEGER''),
                                    (''description'', JStr ''0-100 authenticity score.'')]),
          (''visual_verdict'', JDict [(''type'', JStr ''STRING''),
                                      (''enum'', JList [JStr ''Real'', JStr ''Fake'', JStr ''Uncertain''])]),
          (''visual_anomalies'', JDict
             [(''type'', JStr ''ARRAY''),
              (''items'', JDict [(''type'', JStr ''OBJECT''),
                                 (''properties'', JDict [(''time'', JDict [(''type'', JStr ''STRING'')]),
                                                         (''desc'', JDict [(''type'', JStr ''STRING'')])])])])])]"

definition audio_schema :: json where
  "audio_schema = JDict
     [(''type'', JStr ''OBJECT''),
      (''properties'', JDict
         [(''audio_score'', JDict [(''type'', JStr ''INTEGER''),
                                   (''description'', JStr ''0-100 authenticity score.'')]),
          (''audio_verdict'', JDict [(''type'', JStr ''STRING''),
                                     (''enum'', JList [JStr ''Natural'', JStr ''Synthetic'', JStr ''Mixed/Edited''])]),
          (''acoustic_analysis'', JDict [(''type'', JStr ''STRING'')]),
          (''detected_issues'', JDict [(''type'', JStr ''ARRAY''),
                                       (''items'', JDict [(''type'', JStr ''STRING'')])])])]"

definition visual_prompt :: string where
  "visual_prompt = ''Analyze frame-by-frame for deepfake artifacts, unnatural blinking, and shadow errors.''"

definition audio_prompt :: string where
  "audio_prompt = ''Listen for AI voice artifacts: metallic robotic ends of words, flat pitch, lack of breath.''"

text \<open>
  \<open>json.loads\<close> belongs to the standard library: it is a parameter, \<open>None\<close> where it
  raises \<open>JSONDecodeError\<close>. Each classifier returns what it delivers.
\<close>

type_synonym json_loads = "string \<Rightarrow> json option"

definition analyze_visuals ::
  "provider \<Rightarrow> json_loads \<Rightarrow> remote_file \<Rightarrow> event list \<Rightarrow> (exn + json) \<times> event list" where
  "analyze_visuals P loads file_obj tr =
     (let text = generate_content P VIDEO_MODEL_ID (uri file_obj) (mime_type file_obj)
                   visual_prompt visual_schema;
          tr' = tr @ [GenerateContent VIDEO_MODEL_ID]
      in case loads text of
           None \<Rightarrow> (Inl JSONDecodeError, tr')
         | Some v \<Rightarrow> (Inr v, tr'))"

definition analyze_audio ::
  "provider \<Rightarrow> json_loads \<Rightarrow> remote_file \<Rightarrow> event list \<Rightarrow> (exn + json) \<times> event list" where
  "analyze_audio P loads file_obj tr =
     (let text = generate_content P AUDIO_MODEL_ID (uri file_obj) (mime_type file_obj)
                   audio_prompt audio_schema;
          tr' = tr @ [GenerateContent AUDIO_MODEL_ID]
      in case loads text of
           None \<Rightarrow> (Inl JSONDecodeError, tr')
         | Some v \<Rightarrow> (Inr v, tr'))"

text \<open>
  The dashboard reads the scores with \<open>dict.get(key, 0)\<close>. A result that is not a dict
  has no \<open>get\<close>; the model returns \<open>None\<close> there.
\<close>

fun dict_get :: "json \<Rightarrow> string \<Rightarrow> json \<Rightarrow> json option" where
  "dict_get (JDict kvs) k d = Some (case map_of kvs k of Some v \<Rightarrow> v | None \<Rightarrow> d)"
| "dict_get _ k d = None"

definition v_score :: "json \<Rightarrow> json option" where
  "v_score visual_res = dict_get visual_res ''visual_score'' (JInt 0)"

definition a_score :: "json \<Rightarrow> json option" where
  "a_score audio_res = dict_get audio_res ''audio_score'' (JInt 0)"

section \<open>The analysis run\<close>

text \<open>
  \<^verbatim>\<open>
  gemini_file = upload_to_gemini(target_file_path)
  visual_res = analyze_visuals(gemini_file)
  audio_res = analyze_audio(gemini_file)
  \<close>
  An exception ends the run at the call that raised it.
\<close>

definition run_forensics ::
  "provider \<Rightarrow> json_loads \<Rightarrow> string \<Rightarrow> event list \<Rightarrow> ((exn + json \<times> json) \<times> event list) option" where
  "run_forensics P loads target_file_path tr =
     (case upload_to_gemini P target_file_path tr of
        None \<Rightarrow> None
      | Some (Inl e, tr1) \<Rightarrow> Some (Inl e, tr1)
      | Some (Inr gemini_file, tr1) \<Rightarrow>
          (case analyze_visuals P loads gemini_file tr1 of
             (Inl e, tr2) \<Rightarrow> Some (Inl e, tr2)
           | (Inr visual_res, tr2) \<Rightarrow>
               (case analyze_audio P loads gemini_file tr2 of
                  (Inl e, tr3) \<Rightarrow> Some (Inl e, tr3)
                | (Inr audio_res, tr3) \<Rightarrow> Some (Inr (visual_res, audio_res), tr3))))"

section \<open>Notions used to state the properties\<close>

text \<open>
  The identifier alphabet and the positional patterns as the spec words them: a token of
  11 characters from \<open>[A-Za-z0-9_-]\<close>, right after \<open>v=\<close> or \<open>/\<close>, followed by \<open>?\<close>, \<open>&\<close>,
  \<open>/\<close> or the end of the URL. \<open>occurs_at url i tok\<close>: such an occurrence starts at
  offset \<open>i\<close> of \<open>url\<close>.
\<close>

definition ascii_id_char :: "char \<Rightarrow> bool" where
  "ascii_id_char c =
     (c \<in> set ''ABCDEFGHIJKLMNOPQRSTUVWXYZabcdefghijklmnopqrstuvwxyz0123456789_-'')"

definition occurs_at :: "string \<Rightarrow> nat \<Rightarrow> string \<Rightarrow> bool" where
  "occurs_at url i tok =
     (\<exists>pre sep rest. url = pre @ sep @ tok @ rest \<and> length pre = i
        \<and> (sep = ''v='' \<or> sep = ''/'')
        \<and> length tok = 11 \<and> list_all ascii_id_char tok
        \<and> (rest = [] \<or> take 1 rest = ''?'' \<or> take 1 rest = ''&'' \<or> take 1 rest = ''/''))"





text \<open>
  The provider's answers in the order ingestion observes them: the upload's answer, then
  the answer to each status request, made for the name the answer before carried.
\<close>

fun handle_at :: "provider \<Rightarrow> string \<Rightarrow> nat \<Rightarrow> remote_file" where
  "handle_at P file_path 0 = files_upload P file_path"
| "handle_at P file_path (Suc k) = files_get P k (name (handle_at P file_path k))"

text \<open>The events of the status requests number \<open>k\<close> to \<open>k + m - 1\<close>.\<close>

fun poll_events :: "provider \<Rightarrow> string \<Rightarrow> nat \<Rightarrow> nat \<Rightarrow> event list" where
  "poll_events P file_path k 0 = []"
| "poll_events P file_path k (Suc m) =
     [Sleep 1, FilesGet (name (handle_at P file_path k)) (state (handle_at P file_path (Suc k)))]
     @ poll_events P file_path (Suc k) m"

text \<open>The states a trace records as observed, its generation requests and its sleeps.\<close>

fun observed :: "event list \<Rightarrow> string list" where
  "observed [] = []"
| "observed (FilesUpload p s # es) = s # observed es"
| "observed (FilesGet n s # es) = s # observed es"
| "observed (e # es) = observed es"

fun is_generate :: "event \<Rightarrow> bool" where
  "is_generate (GenerateContent m) = True"
| "is_generate _ = False"

fun sleeps :: "event list \<Rightarrow> nat list" where
  "sleeps [] = []"
| "sleeps (Sleep d # es) = d # sleeps es"
| "sleeps (e # es) = sleeps es"





section \<open>Fixtures\<close>

text \<open>
  Collaborators of the kind the spec's test plan uses. \<open>ydl_fail\<close> raises on every
  fetch and leaves the disk alone; \<open>ydl_mp4\<close> fills the template's extension with
  \<open>mp4\<close> and writes the file unless it is there.
\<close>

definition ydl_fail :: downloader where
  "ydl_fail url tmpl fs = (False, fs)"

definition ydl_mp4 :: downloader where
  "ydl_mp4 url tmpl fs =
     (let p = take (length tmpl - 7) tmpl @ ''mp4'' in
      (True, if files fs p = None then fs\<lparr>files := (files fs)(p \<mapsto> ''video'')\<rparr> else fs))"

definition empty_world :: world where
  "empty_world = \<lparr>disk = \<lparr>dirs = {}, files = Map.empty\<rparr>, trace = []\<rparr>"



text \<open>
  A scripted provider: the upload answers with state \<open>s0\<close>, the \<open>k\<close>-th status request
  with the \<open>k\<close>-th state of \<open>gs\<close> and with \<open>d\<close> once \<open>gs\<close> is used up; every generation
  request answers \<open>txt\<close>.
\<close>

definition mock_file :: "string \<Rightarrow> remote_file" where
  "mock_file s = \<lparr>name = ''files/mock'', uri = ''https://provider.example/files/mock'',
                  mime_type = ''video/mp4'', state = s\<rparr>"

definition mock_provider :: "string \<Rightarrow> string list \<Rightarrow> string \<Rightarrow> string \<Rightarrow> provider" where
  "mock_provider s0 gs d txt =
     \<lparr>files_upload = (\<lambda>file_path. mock_file s0),
      files_get = (\<lambda>k n. mock_file (if k < length gs then gs ! k else d)),
      generate_content = (\<lambda>model file_uri mime prompt schema. txt)\<rparr>"

text \<open>
  \<open>json.loads\<close> on the two texts the fixtures use: the text \<open>{}\<close> is the empty dict,
  and a text that is not JSON raises.
\<close>

definition loads_empty_dict :: json_loads where
  "loads_empty_dict t = (if t = ''{}'' then Some (JDict []) else None)"

section \<open>The pattern and the leftmost match\<close>

lemma ascii_id_char_id_char: "ascii_id_char c \<Longrightarrow> id_char c"
  unfolding ascii_id_char_def id_char_def is_word_def by auto

lemma capture_Some_iff:
  "capture r = Some tok \<longleftrightarrow>
     (\<exists>rest. r = tok @ rest \<and> length tok = 11 \<and> list_all id_char tok \<and> terminator rest)"
proof
  assume "capture r = Some tok"
  then have h: "11 \<le> length r" "list_all id_char (take 11 r)" "terminator (drop 11 r)" "tok = take 11 r"
    by (auto simp: capture_def split: if_splits)
  then have "r = tok @ drop 11 r \<and> length tok = 11 \<and> list_all id_char tok \<and> terminator (drop 11 r)"
    by simp
  then show "\<exists>rest. r = tok @ rest \<and> length tok = 11 \<and> list_all id_char tok \<and> terminator rest"
    by blast
next
  assume "\<exists>rest. r = tok @ rest \<and> length tok = 11 \<and> list_all id_char tok \<and> terminator rest"
  then show "capture r = Some tok" by (auto simp: capture_def)
qed

lemma match_here_sep:
  assumes "sep = ''v='' \<or> sep = ''/''" and "capture r = Some tok"
  shows "match_here (sep @ r) = Some tok"
  using assms by (auto simp: match_here_def after_sep_def)

lemma match_here_Some_iff:
  "match_here s = Some tok \<longleftrightarrow>
     (\<exists>sep r. s = sep @ r \<and> (sep = ''v='' \<or> sep = ''/'') \<and> capture r = Some tok)"
proof
  assume m: "match_here s = Some tok"
  show "\<exists>sep r. s = sep @ r \<and> (sep = ''v='' \<or> sep = ''/'') \<and> capture r = Some tok"
  proof (cases "take 2 s = ''v=''")
    case True
    then have s: "s = ''v='' @ drop 2 s" by (metis append_take_drop_id)
    have "take 1 s \<noteq> ''/''" using True by (cases s) auto
    with m True have "capture (drop 2 s) = Some tok"
      by (auto simp: match_here_def after_sep_def split: option.splits)
    with s show ?thesis by blast
  next
    case False
    with m have t: "take 1 s = ''/''" and c: "capture (drop 1 s) = Some tok"
      by (auto simp: match_here_def after_sep_def split: option.splits if_splits)
    have "s = ''/'' @ drop 1 s" using t by (metis append_take_drop_id)
    with c show ?thesis by blast
  qed
next
  assume "\<exists>sep r. s = sep @ r \<and> (sep = ''v='' \<or> sep = ''/'') \<and> capture r = Some tok"
  then show "match_here s = Some tok" using match_here_sep by blast
qed

lemma re_search_drop:
  "re_search url = Some tok \<longleftrightarrow>
     (\<exists>i\<le>length url. match_here (drop i url) = Some tok \<and> (\<forall>j<i. match_here (drop j url) = None))"
proof (induction url)
  case Nil
  then show ?case by auto
next
  case (Cons c cs)
  show ?case
  proof (cases "match_here (c # cs)")
    case (Some g)
    have "(\<exists>i\<le>length (c # cs). match_here (drop i (c # cs)) = Some tok \<and> (\<forall>j<i. match_here (drop j (c # cs)) = None)) \<longleftrightarrow> g = tok"
    proof
      assume "\<exists>i\<le>length (c # cs). match_here (drop i (c # cs)) = Some tok \<and> (\<forall>j<i. match_here (drop j (c # cs)) = None)"
      then obtain i where i: "match_here (drop i (c # cs)) = Some tok" "\<forall>j<i. match_here (drop j (c # cs)) = None" by blast
      have "i = 0"
      proof (rule ccontr)
        assume "i \<noteq> 0" then have "0 < i" by simp
        with i(2) have "match_here (drop 0 (c # cs)) = None" by blast
        with Some show False by simp
      qed
      with i(1) Some show "g = tok" by simp
    next
      assume "g = tok"
      with Some have "match_here (drop 0 (c # cs)) = Some tok \<and> (\<forall>j<0. match_here (drop j (c # cs)) = None)" by simp
      then show "\<exists>i\<le>length (c # cs). match_here (drop i (c # cs)) = Some tok \<and> (\<forall>j<i. match_here (drop j (c # cs)) = None)" by blast
    qed
    with Some show ?thesis by simp
  next
    case None
    have "(\<exists>i\<le>length (c # cs). match_here (drop i (c # cs)) = Some tok \<and> (\<forall>j<i. match_here (drop j (c # cs)) = None))
        \<longleftrightarrow> (\<exists>i\<le>length cs. match_here (drop i cs) = Some tok \<and> (\<forall>j<i. match_here (drop j cs) = None))" (is "?L \<longleftrightarrow> ?R")
    proof
      assume ?L
      then obtain i where i: "i \<le> length (c # cs)" "match_here (drop i (c # cs)) = Some tok" "\<forall>j<i. match_here (drop j (c # cs)) = None" by blast
      from i(2) None have "i \<noteq> 0" by (cases i) auto
      then obtain k where k: "i = Suc k" by (cases i) auto
      have "\<forall>j<k. match_here (drop j cs) = None"
      proof (intro allI impI)
        fix j assume "j < k" then have "Suc j < i" using k by simp
        with i(3) have "match_here (drop (Suc j) (c # cs)) = None" by blast
        then show "match_here (drop j cs) = None" by simp
      qed
      with i k show ?R by auto
    next
      assume ?R
      then obtain i where i: "i \<le> length cs" "match_here (drop i cs) = Some tok" "\<forall>j<i. match_here (drop j cs) = None" by blast
      have "\<forall>j<Suc i. match_here (drop j (c # cs)) = None"
      proof (intro allI impI)
        fix j assume j: "j < Suc i"
        show "match_here (drop j (c # cs)) = None"
        proof (cases j)
          case 0 with None show ?thesis by simp
        next
          case (Suc k) with j i(3) show ?thesis by simp
        qed
      qed
      with i have "Suc i \<le> length (c # cs) \<and> match_here (drop (Suc i) (c # cs)) = Some tok \<and> (\<forall>j<Suc i. match_here (drop j (c # cs)) = None)" by simp
      then show ?L by blast
    qed
    with None Cons.IH show ?thesis by simp
  qed
qed

lemma occurs_at_match:
  assumes "occurs_at url i tok" shows "i \<le> length url \<and> match_here (drop i url) = Some tok"
proof -
  from assms obtain pre sep rest where h: "url = pre @ sep @ tok @ rest" "length pre = i"
     "sep = ''v='' \<or> sep = ''/''" "length tok = 11" "list_all ascii_id_char tok"
     "rest = [] \<or> take 1 rest = ''?'' \<or> take 1 rest = ''&'' \<or> take 1 rest = ''/''"
    unfolding occurs_at_def by blast
  have "list_all id_char tok" using h(5) by (simp add: list_all_iff ascii_id_char_id_char)
  moreover have "terminator rest" using h(6) by (auto simp: terminator_def)
  ultimately have "capture (tok @ rest) = Some tok" using h(4) capture_Some_iff by blast
  then have "match_here (sep @ tok @ rest) = Some tok" using h(3) match_here_sep by blast
  with h(1,2) show ?thesis by simp
qed

lemma match_here_exists_search:
  "i \<le> length url \<Longrightarrow> match_here (drop i url) = Some tok \<Longrightarrow> \<exists>k. re_search url = Some k"
proof (induction url arbitrary: i)
  case Nil then show ?case by simp
next
  case (Cons c cs)
  show ?case
  proof (cases "match_here (c # cs)")
    case (Some g) then show ?thesis by simp
  next
    case None
    with Cons.prems have "i \<noteq> 0" by (cases i) auto
    then obtain k where "i = Suc k" by (cases i) auto
    with Cons show ?thesis using None by auto
  qed
qed

section \<open>The poll loop\<close>

lemma poll_loop_run:
  "(\<forall>j<m. state (handle_at P fp (k + j)) = ''PROCESSING'') \<Longrightarrow>
   state (handle_at P fp (k + m)) \<noteq> ''PROCESSING'' \<Longrightarrow>
   poll_loop P k (handle_at P fp k) tr = Some (handle_at P fp (k + m), tr @ poll_events P fp k m)"
proof (induction m arbitrary: k tr)
  case 0
  then show ?case by (subst poll_loop.simps) simp
next
  case (Suc m)
  have p: "state (handle_at P fp k) = ''PROCESSING''" using Suc.prems(1) by force
  have a: "\<forall>j<m. state (handle_at P fp (Suc k + j)) = ''PROCESSING''"
  proof (intro allI impI)
    fix j assume "j < m"
    then have "Suc j < Suc m" by simp
    with Suc.prems(1) have "state (handle_at P fp (k + Suc j)) = ''PROCESSING''" by blast
    then show "state (handle_at P fp (Suc k + j)) = ''PROCESSING''" by simp
  qed
  have b: "state (handle_at P fp (Suc k + m)) \<noteq> ''PROCESSING''" using Suc.prems(2) by simp
  have "poll_loop P k (handle_at P fp k) tr
        = poll_loop P (Suc k) (handle_at P fp (Suc k))
            (tr @ [Sleep 1, FilesGet (name (handle_at P fp k)) (state (handle_at P fp (Suc k)))])"
    using p by (subst poll_loop.simps) simp
  also have "\<dots> = Some (handle_at P fp (Suc k + m),
       (tr @ [Sleep 1, FilesGet (name (handle_at P fp k)) (state (handle_at P fp (Suc k)))]) @ poll_events P fp (Suc k) m)"
    by (rule Suc.IH [OF a b])
  finally show ?case by simp
qed

lemma poll_loop_returns:
  assumes r: "poll_loop P k h tr = Some r" and h: "h = handle_at P fp k"
  shows "\<exists>n\<ge>k. state (handle_at P fp n) \<noteq> ''PROCESSING''"
proof -
  let ?Q = "\<lambda>(x :: ((provider \<times> nat) \<times> remote_file) \<times> event list) (y :: remote_file \<times> event list).
      snd (fst x) = handle_at (fst (fst (fst x))) fp (snd (fst (fst x)))
      \<longrightarrow> (\<exists>n\<ge>snd (fst (fst x)). state (handle_at (fst (fst (fst x))) fp n) \<noteq> ''PROCESSING'')"
  have "?Q (((P, k), h), tr) r"
  proof (rule poll_loop.raw_induct [where Pa = ?Q, OF _ r])
    fix poll :: "provider \<Rightarrow> nat \<Rightarrow> remote_file \<Rightarrow> event list \<Rightarrow> (remote_file \<times> event list) option"
    fix P k video_file tr y
    assume IH: "\<And>k video_file tr b y. poll k video_file tr b = Some y \<Longrightarrow> ?Q (((k, video_file), tr), b) y"
    assume step: "(if state video_file = ''PROCESSING''
      then poll P (Suc k) (files_get P k (name video_file))
            (tr @ [Sleep 1, FilesGet (name video_file) (state (files_get P k (name video_file)))])
      else Some (video_file, tr)) = Some y"
    show "?Q (((P, k), video_file), tr) y"
    proof (cases "state video_file = ''PROCESSING''")
      case True
      with step have c: "poll P (Suc k) (files_get P k (name video_file))
            (tr @ [Sleep 1, FilesGet (name video_file) (state (files_get P k (name video_file)))]) = Some y"
        by simp
      show ?thesis
      proof (simp, intro impI)
        assume e: "video_file = handle_at P fp k"
        then have "files_get P k (name video_file) = handle_at P fp (Suc k)" by simp
        with IH [OF c] obtain n where "n \<ge> Suc k" "state (handle_at P fp n) \<noteq> ''PROCESSING''"
          by auto
        then show "\<exists>n\<ge>k. state (handle_at P fp n) \<noteq> ''PROCESSING''" by (metis Suc_leD)
      qed
    next
      case False
      then show ?thesis by auto
    qed
  qed
  with h show ?thesis by simp
qed

lemma poll_loop_forever:
  assumes "\<forall>n. state (handle_at P fp n) = ''PROCESSING''"
  shows "poll_loop P 0 (files_upload P fp) tr = None"
proof (cases "poll_loop P 0 (files_upload P fp) tr")
  case None then show ?thesis .
next
  case (Some r)
  then have "\<exists>n\<ge>0. state (handle_at P fp n) \<noteq> ''PROCESSING''"
    by (rule poll_loop_returns) simp
  with assms show ?thesis by blast
qed

lemma upload_to_gemini_run:
  assumes "\<forall>j<n. state (handle_at P fp j) = ''PROCESSING''"
      and "state (handle_at P fp n) \<noteq> ''PROCESSING''"
  shows "upload_to_gemini P fp tr =
     Some (if state (handle_at P fp n) = ''FAILED''
           then Inl (ValueError ''Video processing failed at Google's end.'')
           else Inr (handle_at P fp n),
           tr @ FilesUpload fp (state (files_upload P fp)) # poll_events P fp 0 n)"
proof -
  have "poll_loop P 0 (handle_at P fp 0) (tr @ [FilesUpload fp (state (files_upload P fp))])
       = Some (handle_at P fp (0 + n), (tr @ [FilesUpload fp (state (files_upload P fp))]) @ poll_events P fp 0 n)"
    by (rule poll_loop_run) (use assms in simp_all)
  then show ?thesis by (simp add: upload_to_gemini_def)
qed

lemma sleeps_append: "sleeps (xs @ ys) = sleeps xs @ sleeps ys"
  by (induction xs rule: sleeps.induct) simp_all

lemma sleeps_poll_events: "sleeps (poll_events P fp k n) = replicate n 1"
  by (induction n arbitrary: k) simp_all

lemma no_generate_poll_events: "filter is_generate (poll_events P fp k n) = []"
  by (induction n arbitrary: k) simp_all

lemma observed_poll_events:
  "observed (poll_events P fp k n) = map (\<lambda>j. state (handle_at P fp (Suc j))) [k..<k + n]"
proof (induction n arbitrary: k)
  case 0 show ?case by simp
next
  case (Suc n)
  have "[k..<k + Suc n] = k # [Suc k..<Suc k + n]" by (simp add: upt_rec)
  with Suc show ?case by simp
qed

lemma upload_to_gemini_Some:
  assumes "upload_to_gemini P fp tr = Some (x, tr1)"
  shows "\<exists>n. (\<forall>j<n. state (handle_at P fp j) = ''PROCESSING'')
            \<and> state (handle_at P fp n) \<noteq> ''PROCESSING''
            \<and> x = (if state (handle_at P fp n) = ''FAILED''
                    then Inl (ValueError ''Video processing failed at Google's end.'')
                    else Inr (handle_at P fp n))
            \<and> tr1 = tr @ FilesUpload fp (state (files_upload P fp)) # poll_events P fp 0 n"
proof -
  from assms obtain y where
    "poll_loop P 0 (files_upload P fp) (tr @ [FilesUpload fp (state (files_upload P fp))]) = Some y"
    by (auto simp: upload_to_gemini_def Let_def split: option.splits)
  then have ex: "\<exists>n\<ge>0. state (handle_at P fp n) \<noteq> ''PROCESSING''"
    by (rule poll_loop_returns) simp
  then have ex': "\<exists>n. state (handle_at P fp n) \<noteq> ''PROCESSING''" by blast
  define n where "n = (LEAST n. state (handle_at P fp n) \<noteq> ''PROCESSING'')"
  have n1: "state (handle_at P fp n) \<noteq> ''PROCESSING''"
    unfolding n_def using ex' by (rule LeastI_ex)
  have n2: "\<forall>j<n. state (handle_at P fp j) = ''PROCESSING''"
  proof (intro allI impI)
    fix j assume "j < n"
    then have "\<not> state (handle_at P fp j) \<noteq> ''PROCESSING''"
      unfolding n_def by (rule not_less_Least)
    then show "state (handle_at P fp j) = ''PROCESSING''" by blast
  qed
  have "upload_to_gemini P fp tr =
     Some (if state (handle_at P fp n) = ''FAILED''
           then Inl (ValueError ''Video processing failed at Google's end.'')
           else Inr (handle_at P fp n),
           tr @ FilesUpload fp (state (files_upload P fp)) # poll_events P fp 0 n)"
    by (rule upload_to_gemini_run [OF n2 n1])
  with assms have "x = (if state (handle_at P fp n) = ''FAILED''
                    then Inl (ValueError ''Video processing failed at Google's end.'')
                    else Inr (handle_at P fp n))
            \<and> tr1 = tr @ FilesUpload fp (state (files_upload P fp)) # poll_events P fp 0 n"
    by (simp only: option.inject prod.inject)
  with n1 n2 show ?thesis by blast
qed

lemma observed_ingest:
  "observed (FilesUpload fp (state (files_upload P fp)) # poll_events P fp 0 n)
     = map (\<lambda>j. state (handle_at P fp j)) [0..<Suc n]"
proof -
  have "[0..<Suc n] = 0 # map Suc [0..<n]"
    by (simp add: map_Suc_upt upt_conv_Cons del: upt_Suc)
  then have "map (\<lambda>j. state (handle_at P fp j)) [0..<Suc n]
      = state (handle_at P fp 0) # map (\<lambda>j. state (handle_at P fp (Suc j))) [0..<n]"
    by (simp add: comp_def del: upt_Suc)
  then show ?thesis by (simp add: observed_poll_events del: upt_Suc)
qed

lemma last_observed_ingest:
  "observed (FilesUpload fp (state (files_upload P fp)) # poll_events P fp 0 n) \<noteq> []
   \<and> last (observed (FilesUpload fp (state (files_upload P fp)) # poll_events P fp 0 n))
       = state (handle_at P fp n)"
  unfolding observed_ingest by (simp add: last_map del: upt_Suc)

lemma handle_at_mock:
  "handle_at (mock_provider s0 gs d txt) fp 0 = mock_file s0"
  "handle_at (mock_provider s0 gs d txt) fp (Suc k) = mock_file (if k < length gs then gs ! k else d)"
  by (simp_all add: mock_provider_def)

lemma mock_file_sel:
  "state (mock_file s) = s" "name (mock_file s) = ''files/mock''"
  by (simp_all add: mock_file_def)

lemma mock_upload_sel:
  "files_upload (mock_provider s0 gs d txt) fp = mock_file s0"
  "files_get (mock_provider s0 gs d txt) k n = mock_file (if k < length gs then gs ! k else d)"
  by (simp_all add: mock_provider_def)

section \<open>Ingestion: the claims\<close>

text \<open>
  C4. A provider whose status sequence is PROCESSING, PROCESSING, READY is observed
  exactly three times and ingestion returns the READY handle; a provider whose first
  observed status is FAILED makes ingestion fail with \<open>IngestionError\<close> at that
  observation, with no status request after it.

  The first status ingestion observes is the state of the upload's answer; every later
  one is the answer to a status request. The four parts: (1) the observed statuses are
  PROCESSING, PROCESSING, READY: three observations, the upload's answer and two status
  requests; (2) the upload answers PROCESSING and the status requests answer PROCESSING,
  PROCESSING, READY: exactly three status requests; (3) the upload answers FAILED: the
  error, and no status request; (4) the first status request answers FAILED: the error,
  and no second request. The trace after the run lists every call made.
\<close>

theorem ingest_state_machine:
  "(state (files_upload P fp) = ''PROCESSING''
      \<and> state (files_get P 0 (name (files_upload P fp))) = ''PROCESSING''
      \<and> state (files_get P 1 (name (files_get P 0 (name (files_upload P fp))))) = ''READY''
    \<longrightarrow> upload_to_gemini P fp tr =
          Some (Inr (files_get P 1 (name (files_get P 0 (name (files_upload P fp))))),
                tr @ [FilesUpload fp ''PROCESSING'',
                      Sleep 1, FilesGet (name (files_upload P fp)) ''PROCESSING'',
                      Sleep 1, FilesGet (name (files_get P 0 (name (files_upload P fp)))) ''READY'']))
   \<and> (state (files_upload P fp) = ''PROCESSING''
      \<and> state (files_get P 0 (name (files_upload P fp))) = ''PROCESSING''
      \<and> state (files_get P 1 (name (files_get P 0 (name (files_upload P fp))))) = ''PROCESSING''
      \<and> state (files_get P 2 (name (files_get P 1 (name (files_get P 0 (name (files_upload P fp))))))) = ''READY''
    \<longrightarrow> upload_to_gemini P fp tr =
          Some (Inr (files_get P 2 (name (files_get P 1 (name (files_get P 0 (name (files_upload P fp))))))),
                tr @ [FilesUpload fp ''PROCESSING'',
                      Sleep 1, FilesGet (name (files_upload P fp)) ''PROCESSING'',
                      Sleep 1, FilesGet (name (files_get P 0 (name (files_upload P fp)))) ''PROCESSING'',
                      Sleep 1, FilesGet (name (files_get P 1 (name (files_get P 0 (name (files_upload P fp)))))) ''READY'']))
   \<and> (state (files_upload P fp) = ''FAILED''
    \<longrightarrow> upload_to_gemini P fp tr = Some (Inl IngestionError, tr @ [FilesUpload fp ''FAILED'']))
   \<and> (state (files_upload P fp) = ''PROCESSING''
      \<and> state (files_get P 0 (name (files_upload P fp))) = ''FAILED''
    \<longrightarrow> upload_to_gemini P fp tr =
          Some (Inl IngestionError,
                tr @ [FilesUpload fp ''PROCESSING'',
                      Sleep 1, FilesGet (name (files_upload P fp)) ''FAILED'']))"
proof (intro conjI impI)
  assume a: "state (files_upload P fp) = ''PROCESSING''
      \<and> state (files_get P 0 (name (files_upload P fp))) = ''PROCESSING''
      \<and> state (files_get P 1 (name (files_get P 0 (name (files_upload P fp))))) = ''READY''"
  have "\<forall>j<Suc (Suc 0). state (handle_at P fp j) = ''PROCESSING''"
    using a by (auto simp: less_Suc_eq)
  moreover have "state (handle_at P fp (Suc (Suc 0))) \<noteq> ''PROCESSING''" using a by simp
  ultimately show "upload_to_gemini P fp tr =
          Some (Inr (files_get P 1 (name (files_get P 0 (name (files_upload P fp))))),
                tr @ [FilesUpload fp ''PROCESSING'',
                      Sleep 1, FilesGet (name (files_upload P fp)) ''PROCESSING'',
                      Sleep 1, FilesGet (name (files_get P 0 (name (files_upload P fp)))) ''READY''])"
    using a by (simp add: upload_to_gemini_run [where n = "Suc (Suc 0)"])
next
  assume a: "state (files_upload P fp) = ''PROCESSING''
      \<and> state (files_get P 0 (name (files_upload P fp))) = ''PROCESSING''
      \<and> state (files_get P 1 (name (files_get P 0 (name (files_upload P fp))))) = ''PROCESSING''
      \<and> state (files_get P 2 (name (files_get P 1 (name (files_get P 0 (name (files_upload P fp))))))) = ''READY''"
  have "\<forall>j<Suc (Suc (Suc 0)). state (handle_at P fp j) = ''PROCESSING''"
    using a by (auto simp: less_Suc_eq)
  moreover have "state (handle_at P fp (Suc (Suc (Suc 0)))) \<noteq> ''PROCESSING''"
    using a by (simp add: numeral_2_eq_2)
  ultimately show "upload_to_gemini P fp tr =
          Some (Inr (files_get P 2 (name (files_get P 1 (name (files_get P 0 (name (files_upload P fp))))))),
                tr @ [FilesUpload fp ''PROCESSING'',
                      Sleep 1, FilesGet (name (files_upload P fp)) ''PROCESSING'',
                      Sleep 1, FilesGet (name (files_get P 0 (name (files_upload P fp)))) ''PROCESSING'',
                      Sleep 1, FilesGet (name (files_get P 1 (name (files_get P 0 (name (files_upload P fp)))))) ''READY''])"
    using a by (simp add: upload_to_gemini_run [where n = "Suc (Suc (Suc 0))"] numeral_2_eq_2)
next
  assume a: "state (files_upload P fp) = ''FAILED''"
  have "\<forall>j<0. state (handle_at P fp j) = ''PROCESSING''" by simp
  moreover have "state (handle_at P fp 0) \<noteq> ''PROCESSING''" using a by simp
  ultimately show "upload_to_gemini P fp tr = Some (Inl IngestionError, tr @ [FilesUpload fp ''FAILED''])"
    using a by (simp add: upload_to_gemini_run [where n = 0] IngestionError_def)
next
  assume a: "state (files_upload P fp) = ''PROCESSING''
      \<and> state (files_get P 0 (name (files_upload P fp))) = ''FAILED''"
  have "\<forall>j<Suc 0. state (handle_at P fp j) = ''PROCESSING''" using a by simp
  moreover have "state (handle_at P fp (Suc 0)) \<noteq> ''PROCESSING''" using a by simp
  ultimately show "upload_to_gemini P fp tr =
          Some (Inl IngestionError,
                tr @ [FilesUpload fp ''PROCESSING'',
                      Sleep 1, FilesGet (name (files_upload P fp)) ''FAILED''])"
    using a by (simp add: upload_to_gemini_run [where n = "Suc 0"] IngestionError_def)
qed

theorem ingest_state_machine_witness:
  "upload_to_gemini (mock_provider ''PROCESSING'' [''PROCESSING'', ''READY''] ''READY'' ''{}'')
       ''temp_upload.mp4'' []
     = Some (Inr (mock_file ''READY''),
             [FilesUpload ''temp_upload.mp4'' ''PROCESSING'',
              Sleep 1, FilesGet ''files/mock'' ''PROCESSING'',
              Sleep 1, FilesGet ''files/mock'' ''READY''])
   \<and> upload_to_gemini (mock_provider ''PROCESSING'' [''PROCESSING'', ''PROCESSING'', ''READY''] ''READY'' ''{}'')
       ''temp_upload.mp4'' []
     = Some (Inr (mock_file ''READY''),
             [FilesUpload ''temp_upload.mp4'' ''PROCESSING'',
              Sleep 1, FilesGet ''files/mock'' ''PROCESSING'',
              Sleep 1, FilesGet ''files/mock'' ''PROCESSING'',
              Sleep 1, FilesGet ''files/mock'' ''READY''])
   \<and> upload_to_gemini (mock_provider ''FAILED'' [] ''FAILED'' ''{}'') ''temp_upload.mp4'' []
     = Some (Inl IngestionError, [FilesUpload ''temp_upload.mp4'' ''FAILED''])
   \<and> upload_to_gemini (mock_provider ''PROCESSING'' [''FAILED''] ''FAILED'' ''{}'') ''temp_upload.mp4'' []
     = Some (Inl IngestionError,
             [FilesUpload ''temp_upload.mp4'' ''PROCESSING'',
              Sleep 1, FilesGet ''files/mock'' ''FAILED''])"
  using ingest_state_machine [of "mock_provider ''PROCESSING'' [''PROCESSING'', ''READY''] ''READY'' ''{}''"
          "''temp_upload.mp4''" "[]"]
        ingest_state_machine [of "mock_provider ''PROCESSING'' [''PROCESSING'', ''PROCESSING'', ''READY''] ''READY'' ''{}''"
          "''temp_upload.mp4''" "[]"]
        ingest_state_machine [of "mock_provider ''FAILED'' [] ''FAILED'' ''{}''" "''temp_upload.mp4''" "[]"]
        ingest_state_machine [of "mock_provider ''PROCESSING'' [''FAILED''] ''FAILED'' ''{}''"
          "''temp_upload.mp4''" "[]"]
  by (simp add: mock_upload_sel mock_file_sel)

text \<open>
  C8. Ingestion has no timeout. With a provider that answers PROCESSING to the upload and
  to every status request the poll loop never ends, so \<open>upload_to_gemini\<close> does not
  return. Whatever the number \<open>n\<close> of PROCESSING answers before the first other one,
  ingestion waits through all of them, sleeping one time unit before each of its \<open>n\<close>
  status requests. And when ingestion returns, some observed state was not PROCESSING.
\<close>

theorem ingest_unbounded_wait:
  "((\<forall>n. state (handle_at P fp n) = ''PROCESSING'') \<longrightarrow> upload_to_gemini P fp tr = None)
   \<and> ((\<forall>j<n. state (handle_at P fp j) = ''PROCESSING'') \<and> state (handle_at P fp n) \<noteq> ''PROCESSING''
        \<longrightarrow> (\<exists>r tr'. upload_to_gemini P fp tr = Some (r, tr')
                      \<and> sleeps tr' = sleeps tr @ replicate n 1))
   \<and> (upload_to_gemini P fp tr = Some (r, tr')
        \<longrightarrow> (\<exists>m. state (handle_at P fp m) \<noteq> ''PROCESSING''))"
proof (intro conjI impI)
  assume "\<forall>n. state (handle_at P fp n) = ''PROCESSING''"
  then have "poll_loop P 0 (files_upload P fp) (tr @ [FilesUpload fp (state (files_upload P fp))]) = None"
    by (rule poll_loop_forever)
  then show "upload_to_gemini P fp tr = None" by (simp add: upload_to_gemini_def)
next
  assume a: "(\<forall>j<n. state (handle_at P fp j) = ''PROCESSING'') \<and> state (handle_at P fp n) \<noteq> ''PROCESSING''"
  then have "upload_to_gemini P fp tr =
     Some (if state (handle_at P fp n) = ''FAILED''
           then Inl (ValueError ''Video processing failed at Google's end.'')
           else Inr (handle_at P fp n),
           tr @ FilesUpload fp (state (files_upload P fp)) # poll_events P fp 0 n)"
    using upload_to_gemini_run by blast
  moreover have "sleeps (tr @ FilesUpload fp (state (files_upload P fp)) # poll_events P fp 0 n)
      = sleeps tr @ replicate n 1"
    by (simp add: sleeps_append sleeps_poll_events)
  ultimately show "\<exists>r tr'. upload_to_gemini P fp tr = Some (r, tr') \<and> sleeps tr' = sleeps tr @ replicate n 1"
    by blast
next
  assume "upload_to_gemini P fp tr = Some (r, tr')"
  from upload_to_gemini_Some [OF this]
  show "\<exists>m. state (handle_at P fp m) \<noteq> ''PROCESSING''" by blast
qed

theorem ingest_unbounded_wait_witness:
  "upload_to_gemini (mock_provider ''PROCESSING'' [] ''PROCESSING'' ''{}'') ''temp_upload.mp4'' [] = None
   \<and> (\<exists>r tr'. upload_to_gemini (mock_provider ''PROCESSING'' [''PROCESSING''] ''READY'' ''{}'')
                  ''temp_upload.mp4'' [] = Some (r, tr')
               \<and> sleeps tr' = sleeps [] @ replicate (Suc (Suc 0)) 1)
   \<and> (\<exists>m. state (handle_at (mock_provider ''READY'' [] ''READY'' ''{}'') ''temp_upload.mp4'' m)
             \<noteq> ''PROCESSING'')"
proof (intro conjI)
  let ?P = "mock_provider ''PROCESSING'' [] ''PROCESSING'' ''{}''"
  have "\<forall>n. state (handle_at ?P ''temp_upload.mp4'' n) = ''PROCESSING''"
  proof
    fix n show "state (handle_at ?P ''temp_upload.mp4'' n) = ''PROCESSING''"
      by (cases n) (simp_all add: mock_upload_sel mock_file_sel)
  qed
  with ingest_unbounded_wait [of ?P "''temp_upload.mp4''" "[]"]
  show "upload_to_gemini ?P ''temp_upload.mp4'' [] = None" by blast
next
  let ?P = "mock_provider ''PROCESSING'' [''PROCESSING''] ''READY'' ''{}''"
  have "(\<forall>j<Suc (Suc 0). state (handle_at ?P ''temp_upload.mp4'' j) = ''PROCESSING'')
        \<and> state (handle_at ?P ''temp_upload.mp4'' (Suc (Suc 0))) \<noteq> ''PROCESSING''"
    by (simp add: less_Suc_eq mock_upload_sel mock_file_sel)
  with ingest_unbounded_wait [of ?P "''temp_upload.mp4''" "[]" "Suc (Suc 0)"]
  show "\<exists>r tr'. upload_to_gemini ?P ''temp_upload.mp4'' [] = Some (r, tr')
               \<and> sleeps tr' = sleeps [] @ replicate (Suc (Suc 0)) 1" by blast
next
  let ?P = "mock_provider ''READY'' [] ''READY'' ''{}''"
  have "upload_to_gemini ?P ''temp_upload.mp4'' []
      = Some (Inr (mock_file ''READY''), [FilesUpload ''temp_upload.mp4'' ''READY''])"
    using upload_to_gemini_run [of 0 ?P "''temp_upload.mp4''" "[]"]
    by (simp add: handle_at_mock mock_file_sel mock_upload_sel)
  with ingest_unbounded_wait [of ?P "''temp_upload.mp4''" "[]" 0 "Inr (mock_file ''READY'')"
          "[FilesUpload ''temp_upload.mp4'' ''READY'']"]
  show "\<exists>m. state (handle_at ?P ''temp_upload.mp4'' m) \<noteq> ''PROCESSING''" by blast
qed

text \<open>
  C9. Ingestion treats every observed state other than PROCESSING and FAILED as success:
  when the first state that is not PROCESSING is not FAILED either (READY or any other
  state), \<open>upload_to_gemini\<close> returns that handle and raises nothing.
\<close>

theorem ingest_other_states_succeed:
  assumes "\<forall>j<n. state (handle_at P fp j) = ''PROCESSING''"
      and "state (handle_at P fp n) \<noteq> ''PROCESSING''"
      and "state (handle_at P fp n) \<noteq> ''FAILED''"
  shows "upload_to_gemini P fp tr =
           Some (Inr (handle_at P fp n),
                 tr @ FilesUpload fp (state (files_upload P fp)) # poll_events P fp 0 n)"
  using upload_to_gemini_run [OF assms(1,2), of tr] assms(3) by simp

theorem ingest_other_states_succeed_witness:
  "upload_to_gemini (mock_provider ''PROCESSING'' [''DELETED''] ''DELETED'' ''{}'') ''temp_upload.mp4'' []
     = Some (Inr (mock_file ''DELETED''),
             [FilesUpload ''temp_upload.mp4'' ''PROCESSING'',
              Sleep 1, FilesGet ''files/mock'' ''DELETED''])"
  using ingest_other_states_succeed [of "Suc 0"
          "mock_provider ''PROCESSING'' [''DELETED''] ''DELETED'' ''{}''" "''temp_upload.mp4''" "[]"]
  by (simp add: handle_at_mock mock_file_sel mock_upload_sel)

section \<open>The analysis run: the claim\<close>

lemma run_forensics_unspecified:
  "run_forensics (mock_provider ''STATE_UNSPECIFIED'' [] ''STATE_UNSPECIFIED'' ''{}'')
       loads_empty_dict ''temp_upload.mp4'' []
     = Some (Inr (JDict [], JDict []),
             [FilesUpload ''temp_upload.mp4'' ''STATE_UNSPECIFIED'',
              GenerateContent VIDEO_MODEL_ID, GenerateContent AUDIO_MODEL_ID])"
proof -
  let ?P = "mock_provider ''STATE_UNSPECIFIED'' [] ''STATE_UNSPECIFIED'' ''{}''"
  have "upload_to_gemini ?P ''temp_upload.mp4'' []
      = Some (Inr (mock_file ''STATE_UNSPECIFIED''), [FilesUpload ''temp_upload.mp4'' ''STATE_UNSPECIFIED''])"
    using upload_to_gemini_run [of 0 ?P "''temp_upload.mp4''" "[]"]
    by (simp add: handle_at_mock mock_file_sel mock_upload_sel)
  then show ?thesis
    by (simp add: run_forensics_def analyze_visuals_def analyze_audio_def Let_def
                  mock_provider_def loads_empty_dict_def)
qed

text \<open>
  C7, as the spec states it: in every run a READY state is observed before either
  classification call, and the visual call comes before the audio call. The order
  holds; the READY state does not. Ingestion returns on any state other than PROCESSING
  and FAILED, so with a provider whose upload answers \<open>STATE_UNSPECIFIED\<close> both
  classification calls are issued and no READY state was ever observed.
\<close>

theorem classification_without_ready:
  "run_forensics (mock_provider ''STATE_UNSPECIFIED'' [] ''STATE_UNSPECIFIED'' ''{}'')
       loads_empty_dict ''temp_upload.mp4'' []
     = Some (Inr (JDict [], JDict []),
             [FilesUpload ''temp_upload.mp4'' ''STATE_UNSPECIFIED'',
              GenerateContent VIDEO_MODEL_ID, GenerateContent AUDIO_MODEL_ID])
   \<and> ''READY'' \<notin> set (observed [FilesUpload ''temp_upload.mp4'' ''STATE_UNSPECIFIED'',
              GenerateContent VIDEO_MODEL_ID, GenerateContent AUDIO_MODEL_ID])"
  using run_forensics_unspecified by simp

text \<open>
  C7, amended: in every run that returns, the events of the run are those of ingestion
  followed by the classification calls; no classification call is among the events of
  ingestion; the classification calls are none, the visual one, or the visual one and
  then the audio one; and when a classification call is issued, the last state
  ingestion observed was neither PROCESSING nor FAILED.
\<close>

theorem classification_after_ingestion:
  assumes "run_forensics P loads fp tr = Some (r, tr')"
  shows "\<exists>ing gens. tr' = tr @ ing @ gens \<and> filter is_generate ing = []
          \<and> (gens = [] \<or> gens = [GenerateContent VIDEO_MODEL_ID]
               \<or> gens = [GenerateContent VIDEO_MODEL_ID, GenerateContent AUDIO_MODEL_ID])
          \<and> (gens \<noteq> [] \<longrightarrow> observed ing \<noteq> [] \<and> last (observed ing) \<noteq> ''PROCESSING''
                                \<and> last (observed ing) \<noteq> ''FAILED'')"
proof -
  from assms obtain x tr1 where u: "upload_to_gemini P fp tr = Some (x, tr1)"
    by (auto simp: run_forensics_def split: option.splits)
  from upload_to_gemini_Some [OF u] obtain n where
    n: "state (handle_at P fp n) \<noteq> ''PROCESSING''"
       "x = (if state (handle_at P fp n) = ''FAILED''
                    then Inl (ValueError ''Video processing failed at Google's end.'')
                    else Inr (handle_at P fp n))"
       "tr1 = tr @ FilesUpload fp (state (files_upload P fp)) # poll_events P fp 0 n"
    by blast
  let ?ing = "FilesUpload fp (state (files_upload P fp)) # poll_events P fp 0 n"
  have g: "filter is_generate ?ing = []" by (simp add: no_generate_poll_events)
  show ?thesis
  proof (cases "state (handle_at P fp n) = ''FAILED''")
    case True
    with u n assms have "tr' = tr @ ?ing @ []" by (simp add: run_forensics_def)
    with g show ?thesis by blast
  next
    case False
    have lo: "observed ?ing \<noteq> [] \<and> last (observed ?ing) \<noteq> ''PROCESSING''
                                \<and> last (observed ?ing) \<noteq> ''FAILED''"
      using last_observed_ingest [of fp P n] n(1) False by simp
    from u n assms False have
      "tr' = tr @ ?ing @ [GenerateContent VIDEO_MODEL_ID]
       \<or> tr' = tr @ ?ing @ [GenerateContent VIDEO_MODEL_ID, GenerateContent AUDIO_MODEL_ID]"
      by (auto simp: run_forensics_def analyze_visuals_def analyze_audio_def Let_def
               split: option.splits)
    with g lo show ?thesis by blast
  qed
qed

theorem classification_after_ingestion_witness:
  "\<exists>ing gens. [FilesUpload ''temp_upload.mp4'' ''STATE_UNSPECIFIED'',
                GenerateContent VIDEO_MODEL_ID, GenerateContent AUDIO_MODEL_ID] = [] @ ing @ gens
          \<and> filter is_generate ing = []
          \<and> (gens = [] \<or> gens = [GenerateContent VIDEO_MODEL_ID]
               \<or> gens = [GenerateContent VIDEO_MODEL_ID, GenerateContent AUDIO_MODEL_ID])
          \<and> (gens \<noteq> [] \<longrightarrow> observed ing \<noteq> [] \<and> last (observed ing) \<noteq> ''PROCESSING''
                                \<and> last (observed ing) \<noteq> ''FAILED'')"
  by (rule classification_after_ingestion [OF run_forensics_unspecified])

section \<open>Acquisition: the key\<close>

lemmas pattern_defs = match_here_def after_sep_def capture_def terminator_def id_char_def is_word_def

lemma download_result:
  assumes "re_search url = Some video_id"
  shows "fst (download_youtube_video ydl url w) = Inr (cache_path video_id)
       \<or> fst (download_youtube_video ydl url w) = Inl DownloadError"
  using assms by (simp add: download_youtube_video_def Let_def split: prod.splits)

lemma leftmost_occurrence:
  assumes "occurs_at url i tok" and "\<forall>j<i. match_here (drop j url) = None"
  shows "re_search url = Some tok"
proof -
  from occurs_at_match [OF assms(1)] assms(2)
  have "\<exists>i\<le>length url. match_here (drop i url) = Some tok \<and> (\<forall>j<i. match_here (drop j url) = None)"
    by blast
  then show ?thesis by (simp only: re_search_drop)
qed

lemma occurs_atI:
  assumes "url = pre @ sep @ tok @ rest" "length pre = i" "sep = ''v='' \<or> sep = ''/''"
    "length tok = 11" "list_all ascii_id_char tok"
    "rest = [] \<or> take 1 rest = ''?'' \<or> take 1 rest = ''&'' \<or> take 1 rest = ''/''"
  shows "occurs_at url i tok"
  unfolding occurs_at_def using assms by blast

text \<open>
  C3. For every URL from which the pattern extracts no identifier, acquisition fails with
  \<open>InvalidSourceError\<close> and the world is as it was: the disk is unchanged (no directory
  created, no file written) and the trace has no new event (no fetch).
\<close>

theorem invalid_source_rejected:
  assumes "re_search url = None"
  shows "acquire ydl (YouTubeURL url) w = (Inl InvalidSourceError, w)"
  using assms by (simp add: download_youtube_video_def InvalidSourceError_def)

lemma no_token_example: "re_search ''https://www.youtube.com/feed/trending'' = None"
  by (simp add: pattern_defs)

theorem invalid_source_rejected_witness:
  "acquire ydl_fail (YouTubeURL ''https://www.youtube.com/feed/trending'') empty_world
     = (Inl InvalidSourceError, empty_world)"
  using invalid_source_rejected [OF no_token_example] by simp

lemma search_watch: "re_search ''https://www.youtube.com/watch?v=dQw4w9WgXcQ'' = Some ''dQw4w9WgXcQ''"
  by (simp add: pattern_defs)

lemma search_shorts:
  "re_search ''https://www.youtube.com/shorts/abcdefghijk?v=dQw4w9WgXcQ'' = Some ''abcdefghijk''"
  by (simp add: pattern_defs)

lemma search_two_segments:
  "re_search ''https://example.com/abcdefghijk/ABCDEFGHIJK'' = Some ''abcdefghijk''"
  by (simp add: pattern_defs)

lemma occurs_watch: "occurs_at ''https://www.youtube.com/watch?v=dQw4w9WgXcQ'' 30 ''dQw4w9WgXcQ''"
  by (rule occurs_atI [where pre = "''https://www.youtube.com/watch?''" and sep = "''v=''" and rest = "[]"])
     (simp_all add: ascii_id_char_def)

lemma occurs_shorts:
  "occurs_at ''https://www.youtube.com/shorts/abcdefghijk?v=dQw4w9WgXcQ'' 43 ''dQw4w9WgXcQ''"
  by (rule occurs_atI [where pre = "''https://www.youtube.com/shorts/abcdefghijk?''" and sep = "''v=''" and rest = "[]"])
     (simp_all add: ascii_id_char_def)

lemma occurs_second_segment:
  "occurs_at ''https://example.com/abcdefghijk/ABCDEFGHIJK'' 31 ''ABCDEFGHIJK''"
  by (rule occurs_atI [where pre = "''https://example.com/abcdefghijk''" and sep = "''/''" and rest = "[]"])
     (simp_all add: ascii_id_char_def)

lemma occurs_example:
  "occurs_at ''https://example.com/abcdefghijk'' 19 ''abcdefghijk''"
  by (rule occurs_atI [where pre = "''https://example.com''" and sep = "''/''" and rest = "[]"])
     (simp_all add: ascii_id_char_def)

lemma no_match_before_example:
  "\<forall>j<19. match_here (drop j ''https://example.com/abcdefghijk'') = None"
  by (simp add: numeral_eq_Suc All_less_Suc pattern_defs)

lemma no_match_before_watch:
  "\<forall>j<30. match_here (drop j ''https://www.youtube.com/watch?v=dQw4w9WgXcQ'') = None"
  by (simp add: numeral_eq_Suc All_less_Suc pattern_defs)

lemma acquire_mp4_watch:
  "fst (acquire ydl_mp4 (YouTubeURL ''https://www.youtube.com/watch?v=dQw4w9WgXcQ'') empty_world)
     = Inr ''downloads/dQw4w9WgXcQ.mp4''"
  by (simp add: download_youtube_video_def search_watch Let_def ensure_downloads_def path_exists_def
        empty_world_def cache_path_def outtmpl_def ydl_mp4_def del: re_search.simps)

lemma acquire_mp4_shorts:
  "fst (acquire ydl_mp4 (YouTubeURL ''https://www.youtube.com/shorts/abcdefghijk?v=dQw4w9WgXcQ'') empty_world)
     = Inr ''downloads/abcdefghijk.mp4''"
  by (simp add: download_youtube_video_def search_shorts Let_def ensure_downloads_def path_exists_def
        empty_world_def cache_path_def outtmpl_def ydl_mp4_def del: re_search.simps)

lemma occurs_youtu_be: "occurs_at ''https://youtu.be/dQw4w9WgXcQ'' 16 ''dQw4w9WgXcQ''"
  by (rule occurs_atI [where pre = "''https://youtu.be''" and sep = "''/''" and rest = "[]"])
     (simp_all add: ascii_id_char_def)

lemma no_match_before_youtu_be:
  "\<forall>j<16. match_here (drop j ''https://youtu.be/dQw4w9WgXcQ'') = None"
  by (simp add: numeral_eq_Suc All_less_Suc pattern_defs)

lemma acquire_mp4_youtu_be:
  "fst (acquire ydl_mp4 (YouTubeURL ''https://youtu.be/dQw4w9WgXcQ'') empty_world)
     = Inr ''downloads/dQw4w9WgXcQ.mp4''"
proof -
  have "re_search ''https://youtu.be/dQw4w9WgXcQ'' = Some ''dQw4w9WgXcQ''"
    by (simp add: pattern_defs)
  then show ?thesis
    by (simp add: download_youtube_video_def Let_def ensure_downloads_def path_exists_def
        empty_world_def cache_path_def outtmpl_def ydl_mp4_def del: re_search.simps)
qed

text \<open>
  C1, as the spec states it: every URL that contains the same 11-character identifier in
  an accepted position gets the same cache key. Two URLs that both carry \<open>dQw4w9WgXcQ\<close>
  after \<open>v=\<close> at their end get different keys, since the second has an earlier path
  segment of 11 characters and \<open>re.search\<close> returns the leftmost match.
\<close>

theorem same_identifier_different_key:
  "occurs_at ''https://www.youtube.com/watch?v=dQw4w9WgXcQ'' 30 ''dQw4w9WgXcQ''
   \<and> occurs_at ''https://www.youtube.com/shorts/abcdefghijk?v=dQw4w9WgXcQ'' 43 ''dQw4w9WgXcQ''
   \<and> fst (acquire ydl_mp4 (YouTubeURL ''https://www.youtube.com/watch?v=dQw4w9WgXcQ'') empty_world)
        = Inr ''downloads/dQw4w9WgXcQ.mp4''
   \<and> fst (acquire ydl_mp4 (YouTubeURL ''https://www.youtube.com/shorts/abcdefghijk?v=dQw4w9WgXcQ'') empty_world)
        = Inr ''downloads/abcdefghijk.mp4''"
  using occurs_watch occurs_shorts acquire_mp4_watch acquire_mp4_shorts by blast

text \<open>
  C1, amended: URLs in which the same identifier is the leftmost match of the pattern
  (it occurs in an accepted position and the pattern matches at no earlier offset) get
  the identical cache key, and any path acquisition returns for them is the cache path
  of that key; the URL \<open>https://www.youtube.com/watch?v=dQw4w9WgXcQ\<close> yields the key
  \<open>dQw4w9WgXcQ\<close> and the cache path \<open>downloads/dQw4w9WgXcQ.mp4\<close>.
\<close>

theorem key_derivation:
  "(occurs_at u1 i1 tok \<and> (\<forall>j<i1. match_here (drop j u1) = None)
      \<and> occurs_at u2 i2 tok \<and> (\<forall>j<i2. match_here (drop j u2) = None)
    \<longrightarrow> re_search u1 = Some tok \<and> re_search u2 = Some tok
        \<and> (fst (acquire ydl (YouTubeURL u1) w1) = Inr p1 \<longrightarrow> p1 = cache_path tok)
        \<and> (fst (acquire ydl (YouTubeURL u2) w2) = Inr p2 \<longrightarrow> p2 = cache_path tok))
   \<and> re_search ''https://www.youtube.com/watch?v=dQw4w9WgXcQ'' = Some ''dQw4w9WgXcQ''
   \<and> cache_path ''dQw4w9WgXcQ'' = ''downloads/dQw4w9WgXcQ.mp4''"
proof (intro conjI impI)
  assume a: "occurs_at u1 i1 tok \<and> (\<forall>j<i1. match_here (drop j u1) = None)
      \<and> occurs_at u2 i2 tok \<and> (\<forall>j<i2. match_here (drop j u2) = None)"
  then show s1: "re_search u1 = Some tok" using leftmost_occurrence by blast
  from a show s2: "re_search u2 = Some tok" using leftmost_occurrence by blast
  { assume "fst (acquire ydl (YouTubeURL u1) w1) = Inr p1"
    with download_result [OF s1, of ydl w1] show "p1 = cache_path tok" by simp }
  { assume "fst (acquire ydl (YouTubeURL u2) w2) = Inr p2"
    with download_result [OF s2, of ydl w2] show "p2 = cache_path tok" by simp }
next
  show "re_search ''https://www.youtube.com/watch?v=dQw4w9WgXcQ'' = Some ''dQw4w9WgXcQ''"
    by (rule search_watch)
  show "cache_path ''dQw4w9WgXcQ'' = ''downloads/dQw4w9WgXcQ.mp4''"
    by (simp add: cache_path_def)
qed

theorem key_derivation_witness:
  "re_search ''https://www.youtube.com/watch?v=dQw4w9WgXcQ'' = Some ''dQw4w9WgXcQ''
   \<and> re_search ''https://youtu.be/dQw4w9WgXcQ'' = Some ''dQw4w9WgXcQ''
   \<and> ''downloads/dQw4w9WgXcQ.mp4'' = cache_path ''dQw4w9WgXcQ''"
  using key_derivation [of "''https://www.youtube.com/watch?v=dQw4w9WgXcQ''" 30 "''dQw4w9WgXcQ''"
          "''https://youtu.be/dQw4w9WgXcQ''" 16 ydl_mp4 empty_world "''downloads/dQw4w9WgXcQ.mp4''"
          empty_world "''downloads/dQw4w9WgXcQ.mp4''"]
        occurs_watch no_match_before_watch occurs_youtu_be no_match_before_youtu_be
        acquire_mp4_watch acquire_mp4_youtu_be
  by blast

text \<open>
  C10, as stated: every token of 11 characters from \<open>[A-Za-z0-9_-]\<close> after \<open>v=\<close> or
  \<open>/\<close> and before \<open>?\<close>, \<open>&\<close>, \<open>/\<close> or the end is derived as the cache key. In
  \<open>https://example.com/abcdefghijk/ABCDEFGHIJK\<close> the token \<open>ABCDEFGHIJK\<close> is such an
  occurrence, and the key is \<open>abcdefghijk\<close>, the match further left.
\<close>

theorem second_token_not_key:
  "occurs_at ''https://example.com/abcdefghijk/ABCDEFGHIJK'' 31 ''ABCDEFGHIJK''
   \<and> re_search ''https://example.com/abcdefghijk/ABCDEFGHIJK'' = Some ''abcdefghijk''
   \<and> ''abcdefghijk'' \<noteq> ''ABCDEFGHIJK''"
  using occurs_second_segment search_two_segments by simp

text \<open>
  C10, amended: extraction is purely syntactic. Every URL that contains such an
  occurrence, whatever its scheme and host, is accepted (the pattern finds a key and
  acquisition does not raise \<open>InvalidSourceError\<close>); the key is the token of the
  leftmost match, so it is the given token whenever the pattern matches at no earlier
  offset; \<open>https://example.com/abcdefghijk\<close> is accepted with key \<open>abcdefghijk\<close>.
\<close>

theorem syntactic_extraction:
  assumes "occurs_at url i tok"
  shows "(\<exists>k. re_search url = Some k)
       \<and> fst (acquire ydl (YouTubeURL url) w) \<noteq> Inl InvalidSourceError
       \<and> ((\<forall>j<i. match_here (drop j url) = None)
            \<longrightarrow> re_search url = Some tok
              \<and> (fst (acquire ydl (YouTubeURL url) w) = Inr (cache_path tok)
                   \<or> fst (acquire ydl (YouTubeURL url) w) = Inl DownloadError))"
proof (intro conjI impI)
  from occurs_at_match [OF assms] show ex: "\<exists>k. re_search url = Some k"
    using match_here_exists_search by blast
  then obtain k where k: "re_search url = Some k" by blast
  from download_result [OF k, of ydl w]
  show "fst (acquire ydl (YouTubeURL url) w) \<noteq> Inl InvalidSourceError"
    by (auto simp: InvalidSourceError_def)
next
  assume n: "\<forall>j<i. match_here (drop j url) = None"
  show s: "re_search url = Some tok" by (rule leftmost_occurrence [OF assms n])
  from download_result [OF s, of ydl w]
  show "fst (acquire ydl (YouTubeURL url) w) = Inr (cache_path tok)
          \<or> fst (acquire ydl (YouTubeURL url) w) = Inl DownloadError" by simp
qed

theorem syntactic_extraction_witness:
  "re_search ''https://example.com/abcdefghijk'' = Some ''abcdefghijk''
   \<and> fst (acquire ydl_fail (YouTubeURL ''https://example.com/abcdefghijk'') empty_world)
        \<noteq> Inl InvalidSourceError"
  using syntactic_extraction [OF occurs_example, of ydl_fail empty_world] no_match_before_example
  by blast

section \<open>Acquisition: the cache\<close>









































section \<open>The classifiers: the claim\<close>

text \<open>
  C5, as the spec states it: a response that is not JSON or that violates the schema
  makes the classifier fail with \<open>ClassificationError\<close>. A response of \<open>{}\<close> has no
  score field; both classifiers return it, and the dashboard reads the score 0 from it.
\<close>

theorem missing_score_accepted:
  "fst (analyze_visuals (mock_provider ''READY'' [] ''READY'' ''{}'') loads_empty_dict
          (mock_file ''READY'') []) = Inr (JDict [])
   \<and> fst (analyze_audio (mock_provider ''READY'' [] ''READY'' ''{}'') loads_empty_dict
          (mock_file ''READY'') []) = Inr (JDict [])
   \<and> v_score (JDict []) = Some (JInt 0) \<and> a_score (JDict []) = Some (JInt 0)"
  by (simp add: analyze_visuals_def analyze_audio_def Let_def mock_provider_def
        loads_empty_dict_def v_score_def a_score_def)

text \<open>
  C5, amended: a response that \<open>json.loads\<close> rejects makes the classifier fail with
  \<open>ClassificationError\<close>; a response that parses is returned as it is, without any check
  against the schema; a dict without the score field is read by the dashboard as score 0.
\<close>

theorem classifier_returns_parsed:
  "(loads (generate_content P VIDEO_MODEL_ID (uri f) (mime_type f) visual_prompt visual_schema) = None
      \<longrightarrow> fst (analyze_visuals P loads f tr) = Inl ClassificationError)
   \<and> (loads (generate_content P VIDEO_MODEL_ID (uri f) (mime_type f) visual_prompt visual_schema) = Some v
      \<longrightarrow> fst (analyze_visuals P loads f tr) = Inr v)
   \<and> (loads (generate_content P AUDIO_MODEL_ID (uri f) (mime_type f) audio_prompt audio_schema) = None
      \<longrightarrow> fst (analyze_audio P loads f tr) = Inl ClassificationError)
   \<and> (loads (generate_content P AUDIO_MODEL_ID (uri f) (mime_type f) audio_prompt audio_schema) = Some v'
      \<longrightarrow> fst (analyze_audio P loads f tr) = Inr v')
   \<and> (map_of kvs ''visual_score'' = None \<longrightarrow> v_score (JDict kvs) = Some (JInt 0))
   \<and> (map_of kvs ''audio_score'' = None \<longrightarrow> a_score (JDict kvs) = Some (JInt 0))"
  by (simp add: analyze_visuals_def analyze_audio_def Let_def ClassificationError_def
        v_score_def a_score_def)

theorem classifier_returns_parsed_witness:
  "fst (analyze_visuals (mock_provider ''READY'' [] ''READY'' ''not json'') loads_empty_dict
          (mock_file ''READY'') []) = Inl ClassificationError
   \<and> fst (analyze_audio (mock_provider ''READY'' [] ''READY'' ''not json'') loads_empty_dict
          (mock_file ''READY'') []) = Inl ClassificationError
   \<and> fst (analyze_visuals (mock_provider ''READY'' [] ''READY'' ''{}'') loads_empty_dict
          (mock_file ''READY'') []) = Inr (JDict [])
   \<and> fst (analyze_audio (mock_provider ''READY'' [] ''READY'' ''{}'') loads_empty_dict
          (mock_file ''READY'') []) = Inr (JDict [])
   \<and> v_score (JDict []) = Some (JInt 0) \<and> a_score (JDict []) = Some (JInt 0)"
  using classifier_returns_parsed [where loads = loads_empty_dict
          and P = "mock_provider ''READY'' [] ''READY'' ''not json''"
          and f = "mock_file ''READY''" and tr = "[]" and kvs = "[]"]
        classifier_returns_parsed [where loads = loads_empty_dict
          and P = "mock_provider ''READY'' [] ''READY'' ''{}''"
          and f = "mock_file ''READY''" and tr = "[]" and v = "JDict []" and v' = "JDict []"
          and kvs = "[]"]
  by (simp add: mock_provider_def loads_empty_dict_def)

end
